theory Spec2Isabelle
  imports Main "HOL-Library.Word" "HOL-Library.AList" "HOL-Library.Sublist"
begin

section \<open>Strings and values of the host language\<close>

text \<open>
  A JavaScript string is a sequence of 16-bit code units. The regular expression of the
  key normalisation has no unicode flag, so it inspects one code unit at a time.
\<close>

type_synonym jschar = "16 word"
type_synonym jsstring = "jschar list"

text \<open>Embeds an ASCII literal, to write concrete keys such as \<open>str ''a_b''\<close>.\<close>

definition str :: "string \<Rightarrow> jsstring" where
  "str cs = map (\<lambda>c. of_nat (of_char c)) cs"

text \<open>
  The values a field of a stored document can take at run time. The TypeScript interface
  declares \<open>html: string\<close>, the handler nevertheless tests \<open>typeof\<close>, so the model
  keeps the other primitive shapes.
\<close>

datatype jsval = JUndefined | JNull | JBool bool | JNumber int | JString jsstring | JObject

fun typeof :: "jsval \<Rightarrow> string" where
  "typeof JUndefined = ''undefined''"
| "typeof JNull = ''object''"
| "typeof (JBool b) = ''boolean''"
| "typeof (JNumber n) = ''number''"
| "typeof (JString s) = ''string''"
| "typeof JObject = ''object''"

section \<open>Key normalisation: \<open>replace(/[\/\s]/g, '_')\<close>\<close>

text \<open>
  The class \<open>\s\<close> of ECMAScript: the WhiteSpace and LineTerminator productions
  (TAB, LF, VT, FF, CR, SP, NBSP, U+1680, U+2000 to U+200A, LS, PS, U+202F, U+205F,
  U+3000, U+FEFF). All of them are single code units.
\<close>

definition is_whitespace :: "jschar \<Rightarrow> bool" where
  "is_whitespace c \<longleftrightarrow>
     c = 0x0009 \<or> c = 0x000A \<or> c = 0x000B \<or> c = 0x000C \<or> c = 0x000D \<or> c = 0x0020 \<or>
     c = 0x00A0 \<or> c = 0x1680 \<or> (0x2000 \<le> c \<and> c \<le> 0x200A) \<or>
     c = 0x2028 \<or> c = 0x2029 \<or> c = 0x202F \<or> c = 0x205F \<or> c = 0x3000 \<or> c = 0xFEFF"

definition slash :: jschar where
  "slash = 0x002F"

definition underscore :: jschar where
  "underscore = 0x005F"

text \<open>The character class \<open>[\/\s]\<close>.\<close>

definition matches_class :: "jschar \<Rightarrow> bool" where
  "matches_class c \<longleftrightarrow> c = slash \<or> is_whitespace c"

text \<open>
  \<open>String.prototype.replace\<close> with a global one-character pattern: the scan goes left
  to right, each matching code unit is replaced by \<open>_\<close>, every other one is copied.
\<close>

fun safeUrl :: "jsstring \<Rightarrow> jsstring" where
  "safeUrl [] = []"
| "safeUrl (c # cs) = (if matches_class c then underscore # safeUrl cs else c # safeUrl cs)"

section \<open>The two tiers\<close>

text \<open>
  The interface \<open>CacheData\<close>: what the handler writes under a key of the collection
  \<open>cache\<close>. The field \<open>url\<close> of the source is \<open>doc_url\<close> here, the name
  \<open>url\<close> being the request's. On the read side \<open>html\<close> is whatever the store
  returns, hence a \<open>jsval\<close>.
\<close>

record CacheData =
  html :: jsval
  timestamp :: int
  doc_url :: jsstring
  createdAt :: int

text \<open>
  The interface \<open>CachedDocument\<close>: the snapshot that \<open>docRef.get()\<close> resolves to, an
  existence flag and the payload that \<open>data()\<close> returns (\<open>None\<close> for \<open>undefined\<close>).
\<close>

record CachedDocument =
  exists :: bool
  data :: "CacheData option"

definition no_document :: CachedDocument where
  "no_document = \<lparr>exists = False, data = None\<rparr>"

text \<open>
  The state the handlers share: \<open>memoryCache\<close>, the in-process cache (a JavaScript
  object underneath: insertion-ordered, one entry per key, only strings are ever stored,
  no expiry), and \<open>db\<close>, the collection \<open>cache\<close> of the document store, given by the
  snapshot each document id currently reads as.

  The cache library keeps its entries as properties of a plain object. A value set under
  the key \<open>__proto__\<close> therefore lands in the prototype slot of that object: \<open>get\<close>
  and \<open>set\<close> reach it like any entry, \<open>del\<close> does not remove it and \<open>keys\<close> does
  not list it. In the model the entry under \<open>proto_key\<close> stands for that slot.
\<close>

record state =
  memoryCache :: "(jsstring \<times> jsstring) list"
  db :: "jsstring \<Rightarrow> CachedDocument"

definition proto_key :: jsstring where
  "proto_key = str ''__proto__''"

text \<open>\<open>memoryCache.del(key)\<close> and \<open>memoryCache.keys()\<close>.\<close>

definition memory_del :: "jsstring \<Rightarrow> (jsstring \<times> jsstring) list \<Rightarrow> (jsstring \<times> jsstring) list" where
  "memory_del key entries = (if key = proto_key then entries else AList.delete key entries)"

definition memory_keys :: "(jsstring \<times> jsstring) list \<Rightarrow> jsstring list" where
  "memory_keys entries = filter (\<lambda>key. key \<noteq> proto_key) (map fst entries)"

text \<open>
  What a handler cannot decide: the rendering engine, which returns the markup or throws,
  whether the store rejects the read, the write or the delete of a document, and the two
  clocks. A rejected operation leaves the collection as it was.
\<close>

datatype exn = RenderError

record env =
  commonEngine_render :: "jsstring \<Rightarrow> jsstring \<Rightarrow> exn + jsstring"
  get_rejects :: "jsstring \<Rightarrow> bool"
  set_rejects :: "jsstring \<Rightarrow> bool"
  delete_rejects :: "jsstring \<Rightarrow> bool"
  serverTimestamp :: int
  now :: int

record Request =
  url :: jsstring
  baseUrl :: jsstring

text \<open>The calls a handler makes to its collaborators, in order.\<close>

datatype outcome = Fulfilled | Rejected

datatype event =
    MemoryGet jsstring
  | MemorySet jsstring jsstring
  | MemoryDel jsstring
  | MemoryKeys
  | DocGet jsstring outcome
  | DocSet jsstring outcome
  | DocDelete jsstring outcome
  | Render jsstring

datatype response = Send jsstring | ServerError

fun is_render :: "event \<Rightarrow> bool" where
  "is_render (Render u) = True"
| "is_render e = False"

fun is_store_call :: "event \<Rightarrow> bool" where
  "is_store_call (DocGet k r) = True"
| "is_store_call (DocSet k r) = True"
| "is_store_call (DocDelete k r) = True"
| "is_store_call e = False"

fun is_rejected :: "event \<Rightarrow> bool" where
  "is_rejected (DocGet k r) = (r = Rejected)"
| "is_rejected (DocSet k r) = (r = Rejected)"
| "is_rejected (DocDelete k r) = (r = Rejected)"
| "is_rejected e = False"

definition renders :: "event list \<Rightarrow> nat" where
  "renders tr = length (filter is_render tr)"

definition store_calls :: "event list \<Rightarrow> nat" where
  "store_calls tr = length (filter is_store_call tr)"

section \<open>The main route handler: \<open>server.get('*', ...)\<close>\<close>

text \<open>
  The test of line 106,
  \<open>cachedDoc.exists && cachedData && typeof cachedData.html === 'string'\<close>:
  the markup when the three conjuncts hold, \<open>None\<close> otherwise.
\<close>

definition firestore_hit :: "CachedDocument \<Rightarrow> jsstring option" where
  "firestore_hit cachedDoc =
     (if exists cachedDoc then
        (case data cachedDoc of
           None \<Rightarrow> None
         | Some cachedData \<Rightarrow>
             (if typeof (html cachedData) = ''string''
              then (case html cachedData of JString h \<Rightarrow> Some h | _ \<Rightarrow> None)
              else None))
      else None)"

text \<open>
  Steps 3 and 4 (lines 117 to 145): render, write the memory cache, then write the
  document; a rejected write is logged and the markup is sent all the same. A throwing
  renderer reaches the outer \<open>catch\<close>, which answers 500.
\<close>

definition render_and_save :: "env \<Rightarrow> Request \<Rightarrow> jsstring \<Rightarrow> state \<Rightarrow> event list
    \<Rightarrow> response \<times> state \<times> event list" where
  "render_and_save e req key s tr =
     (case commonEngine_render e (url req) (baseUrl req) of
        Inl err \<Rightarrow> (ServerError, s, tr @ [Render (url req)])
      | Inr markup \<Rightarrow>
          (let s1 = s\<lparr>memoryCache := AList.update key markup (memoryCache s)\<rparr> in
           if set_rejects e key
           then (Send markup, s1,
                 tr @ [Render (url req), MemorySet key markup, DocSet key Rejected])
           else (Send markup,
                 s1\<lparr>db := (db s1)(key :=
                    \<lparr>exists = True,
                     data = Some \<lparr>html = JString markup, timestamp = serverTimestamp e,
                                  doc_url = url req, createdAt = now e\<rparr>\<rparr>)\<rparr>,
                 tr @ [Render (url req), MemorySet key markup, DocSet key Fulfilled])))"

text \<open>
  Step 2 (lines 100 to 115): read the document; a well-shaped one is copied into the
  memory cache and sent; a rejected read is logged and treated as a miss.
\<close>

definition firestore_lookup :: "env \<Rightarrow> Request \<Rightarrow> jsstring \<Rightarrow> state
    \<Rightarrow> response \<times> state \<times> event list" where
  "firestore_lookup e req key s =
     (if get_rejects e key
      then render_and_save e req key s [MemoryGet key, DocGet key Rejected]
      else (case firestore_hit (db s key) of
              Some h \<Rightarrow>
                (Send h, s\<lparr>memoryCache := AList.update key h (memoryCache s)\<rparr>,
                 [MemoryGet key, DocGet key Fulfilled, MemorySet key h])
            | None \<Rightarrow> render_and_save e req key s [MemoryGet key, DocGet key Fulfilled]))"

text \<open>
  Step 1 (lines 90 to 98): \<open>if (memoryCached)\<close> is a truthiness test, which
  \<open>undefined\<close> and the empty string both fail.
\<close>

definition get_handler :: "env \<Rightarrow> Request \<Rightarrow> state \<Rightarrow> response \<times> state \<times> event list" where
  "get_handler e req s =
     (let key = safeUrl (url req) in
      case map_of (memoryCache s) key of
        None \<Rightarrow> firestore_lookup e req key s
      | Some memoryCached \<Rightarrow>
          (if memoryCached \<noteq> [] then (Send memoryCached, s, [MemoryGet key])
           else firestore_lookup e req key s))"

section \<open>The invalidation handler: \<open>server.post('/api/cache/invalidate', ...)\<close>\<close>

text \<open>\<open>String.prototype.includes\<close> with a string argument: a scan for the pattern at each
  position.\<close>

fun js_includes :: "jsstring \<Rightarrow> jsstring \<Rightarrow> bool" where
  "js_includes [] pat = (pat = [])"
| "js_includes (c # cs) pat = (prefix pat (c # cs) \<or> js_includes cs pat)"

text \<open>
  \<open>memoryCache.del(key)\<close> followed by \<open>db.collection('cache').doc(key).delete()\<close>. The
  promise of the delete is not awaited and has no handler: the memory cache changes at
  once, the collection does not change while the handler runs. The trace records the
  delete as issued, with the outcome it will settle to.
\<close>

definition delete_entry :: "env \<Rightarrow> jsstring \<Rightarrow> state \<times> event list \<Rightarrow> state \<times> event list" where
  "delete_entry e key st =
     ((fst st)\<lparr>memoryCache := memory_del key (memoryCache (fst st))\<rparr>,
      snd st @ [MemoryDel key,
                DocDelete key (if delete_rejects e key then Rejected else Fulfilled)])"

text \<open>The \<open>forEach\<close> over the snapshot \<open>memoryCache.keys()\<close> (lines 171 to 178).\<close>

fun invalidate_keys :: "env \<Rightarrow> jsstring \<Rightarrow> jsstring list \<Rightarrow> state \<times> event list
    \<Rightarrow> state \<times> event list" where
  "invalidate_keys e pat [] st = st"
| "invalidate_keys e pat (key # memoryKeys) st =
     (if js_includes key pat then invalidate_keys e pat memoryKeys (delete_entry e key st)
      else invalidate_keys e pat memoryKeys st)"

datatype invalidate_response = Success | InvalidationFailed

text \<open>
  The body fields \<open>url\<close> and \<open>pattern\<close> are a string or absent; \<open>if (url)\<close> and
  \<open>if (pattern)\<close> are truthiness tests, so an empty string skips its branch. How the
  framework fills \<open>req.body\<close> is outside the model, which starts from the two fields.
  No modelled call throws, so the 500 answer of the \<open>catch\<close> is never produced.
\<close>

definition url_branch :: "env \<Rightarrow> jsstring option \<Rightarrow> state \<times> event list \<Rightarrow> state \<times> event list" where
  "url_branch e body_url st =
     (case body_url of
        None \<Rightarrow> st
      | Some u \<Rightarrow> (if u \<noteq> [] then delete_entry e (safeUrl u) st else st))"

definition pattern_branch :: "env \<Rightarrow> jsstring option \<Rightarrow> state \<times> event list
    \<Rightarrow> state \<times> event list" where
  "pattern_branch e body_pattern st =
     (case body_pattern of
        None \<Rightarrow> st
      | Some pat \<Rightarrow>
          (if pat \<noteq> []
           then invalidate_keys e pat (memory_keys (memoryCache (fst st)))
                  (fst st, snd st @ [MemoryKeys])
           else st))"

definition invalidate_handler :: "env \<Rightarrow> jsstring option \<Rightarrow> jsstring option \<Rightarrow> state
    \<Rightarrow> invalidate_response \<times> state \<times> event list" where
  "invalidate_handler e body_url body_pattern s =
     (let st = pattern_branch e body_pattern (url_branch e body_url (s, [])) in
      (Success, fst st, snd st))"

text \<open>
  The handler has answered when the deletes it issued settle. Settling takes the issued
  deletes in order: a fulfilled one removes its document, a rejected one changes nothing.
\<close>

fun settle :: "event list \<Rightarrow> state \<Rightarrow> state" where
  "settle [] s = s"
| "settle (DocDelete key Fulfilled # tr) s = settle tr (s\<lparr>db := (db s)(key := no_document)\<rparr>)"
| "settle (ev # tr) s = settle tr s"

definition settled :: "invalidate_response \<times> state \<times> event list
    \<Rightarrow> invalidate_response \<times> state \<times> event list" where
  "settled out = (fst out, settle (snd (snd out)) (fst (snd out)), snd (snd out))"

text \<open>
  The two operations of the invalidator: a body with only \<open>url\<close>, one with only
  \<open>pattern\<close>, each taken up to the settlement of its deletes, with no request served in
  between. The state at the moment of the answer is that of \<open>invalidate_handler\<close>.
\<close>

definition invalidateKey :: "env \<Rightarrow> jsstring \<Rightarrow> state
    \<Rightarrow> invalidate_response \<times> state \<times> event list" where
  "invalidateKey e p s = settled (invalidate_handler e (Some p) None s)"

definition invalidatePattern :: "env \<Rightarrow> jsstring \<Rightarrow> state
    \<Rightarrow> invalidate_response \<times> state \<times> event list" where
  "invalidatePattern e pat s = settled (invalidate_handler e None (Some pat) s)"

text \<open>
  No request carries an empty URL, and the key of a URL is as long as the URL. So no handler
  stores under the empty key, in either tier: the states the handlers build satisfy
  \<open>no_empty_key\<close>.
\<close>

definition no_empty_key :: "state \<Rightarrow> bool" where
  "no_empty_key s \<longleftrightarrow> map_of (memoryCache s) [] = None \<and> db s [] = no_document"

section \<open>The hit test in the words of the specification\<close>

text \<open>
  A record counts as a hit when the existence flag is true, the payload is present and
  its content field is a string. This predicate is written from that sentence, to be
  compared with \<open>firestore_hit\<close>, which is written from line 106.
\<close>

definition record_is_hit :: "CachedDocument \<Rightarrow> bool" where
  "record_is_hit doc \<longleftrightarrow>
     exists doc \<and>
     (case data doc of
        None \<Rightarrow> False
      | Some payload \<Rightarrow> (case html payload of JString content \<Rightarrow> True | _ \<Rightarrow> False))"

section \<open>Concrete scenarios\<close>

text \<open>
  The scenario of the specification: the request path \<open>/foo/bar\<close>, whose key is
  \<open>_foo_bar\<close>, and the rendered page \<open><html>1</html>\<close>; an older page to tell a
  stored copy from a fresh rendering.
\<close>

definition page :: jsstring where
  "page = str ''<html>1</html>''"

definition stale_page :: jsstring where
  "stale_page = str ''<html>0</html>''"

definition foo_bar :: Request where
  "foo_bar = \<lparr>url = str ''/foo/bar'', baseUrl = []\<rparr>"

text \<open>
  Three environments: every store operation succeeds; every store operation is rejected;
  only the deletes are rejected. The renderer returns \<open>page\<close> in all three.
\<close>

definition healthy :: env where
  "healthy = \<lparr>commonEngine_render = (\<lambda>u b. Inr page), get_rejects = (\<lambda>k. False),
     set_rejects = (\<lambda>k. False), delete_rejects = (\<lambda>k. False),
     serverTimestamp = 1, now = 1\<rparr>"

definition store_down :: env where
  "store_down = \<lparr>commonEngine_render = (\<lambda>u b. Inr page), get_rejects = (\<lambda>k. True),
     set_rejects = (\<lambda>k. True), delete_rejects = (\<lambda>k. True),
     serverTimestamp = 1, now = 1\<rparr>"

definition delete_down :: env where
  "delete_down = \<lparr>commonEngine_render = (\<lambda>u b. Inr page), get_rejects = (\<lambda>k. False),
     set_rejects = (\<lambda>k. False), delete_rejects = (\<lambda>k. True),
     serverTimestamp = 1, now = 1\<rparr>"

text \<open>
  States: both tiers empty; the key \<open>_foo_bar\<close> in the durable tier only, with a
  given content field; the empty string cached in memory; the same page in both tiers; the
  page of \<open>/_proto__\<close> cached in memory; and the three keys of the pattern scenario in
  both tiers, next to \<open>a_z\<close>, which only the durable tier holds.
\<close>

definition stored :: "jsval \<Rightarrow> CachedDocument" where
  "stored v = \<lparr>exists = True,
     data = Some \<lparr>html = v, timestamp = 0, doc_url = str ''/foo/bar'', createdAt = 0\<rparr>\<rparr>"

definition cold :: state where
  "cold = \<lparr>memoryCache = [], db = (\<lambda>k. no_document)\<rparr>"

definition durable_only :: "jsval \<Rightarrow> state" where
  "durable_only v = \<lparr>memoryCache = [], db = (\<lambda>k. no_document)(str ''_foo_bar'' := stored v)\<rparr>"

definition hollow :: state where
  "hollow = \<lparr>memoryCache = [(str ''_foo_bar'', [])], db = (\<lambda>k. no_document)\<rparr>"

definition both_tiers :: state where
  "both_tiers = \<lparr>memoryCache = [(str ''_foo_bar'', stale_page)],
     db = (\<lambda>k. no_document)(str ''_foo_bar'' := stored (JString stale_page))\<rparr>"

definition proto_cached :: state where
  "proto_cached = \<lparr>memoryCache = [(str ''__proto__'', page)], db = (\<lambda>k. no_document)\<rparr>"

definition pattern_state :: state where
  "pattern_state =
     \<lparr>memoryCache = [(str ''a_b'', page), (str ''a_c'', page), (str ''x_y'', page)],
      db = (\<lambda>k. no_document)
        (str ''a_b'' := stored (JString page), str ''a_c'' := stored (JString page),
         str ''x_y'' := stored (JString page), str ''a_z'' := stored (JString page))\<rparr>"

section \<open>Properties of the key normalisation\<close>

lemma underscore_not_in_class: "\<not> matches_class underscore"
  by (simp add: matches_class_def underscore_def slash_def is_whitespace_def)

lemma length_safeUrl: "length (safeUrl p) = length p"
  by (induction p) simp_all

lemma safeUrl_nth:
  "i < length p \<Longrightarrow> safeUrl p ! i = (if matches_class (p ! i) then underscore else p ! i)"
proof (induction p arbitrary: i)
  case Nil
  then show ?case by simp
next
  case (Cons c cs)
  then show ?case by (cases i) simp_all
qed

lemma safeUrl_idem: "safeUrl (safeUrl p) = safeUrl p"
  by (induction p) (simp_all add: underscore_not_in_class)

text \<open>
  Claim C9. The key normalisation is defined on every string, the empty one included;
  its result is the input with each \<open>/\<close> and each whitespace code unit replaced by
  \<open>_\<close> and every other code unit kept; normalising a second time changes nothing.
\<close>

theorem safeUrl_total_replacing_idempotent:
  "safeUrl [] = [] \<and>
   safeUrl p = map (\<lambda>c. if c = slash \<or> is_whitespace c then underscore else c) p \<and>
   safeUrl (safeUrl p) = safeUrl p"
proof -
  have "safeUrl p = map (\<lambda>c. if c = slash \<or> is_whitespace c then underscore else c) p"
    by (induction p) (simp_all add: matches_class_def)
  moreover have "safeUrl (safeUrl p) = safeUrl p"
    by (rule safeUrl_idem)
  moreover have "safeUrl [] = []"
    by simp
  ultimately show ?thesis
    by blast
qed

section \<open>Evaluating the scenarios\<close>

lemma safeUrl_foo_bar: "safeUrl (url foo_bar) = str ''_foo_bar''"
  by (simp add: foo_bar_def str_def matches_class_def slash_def underscore_def is_whitespace_def)

lemma safeUrl_foo_bar_str: "safeUrl (str ''/foo/bar'') = str ''_foo_bar''"
  by (simp add: str_def matches_class_def slash_def underscore_def is_whitespace_def)

lemma page_nonempty: "page \<noteq> []"
  by (simp add: page_def str_def)

lemma page_not_stale: "page \<noteq> stale_page"
  by (simp add: page_def stale_page_def str_def)

lemma render_healthy: "commonEngine_render healthy u b = Inr page"
  by (simp add: healthy_def)

lemma render_store_down: "commonEngine_render store_down u b = Inr page"
  by (simp add: store_down_def)

lemma abx_distinct:
  "str ''a_b'' \<noteq> str ''a_c''" "str ''a_b'' \<noteq> str ''x_y''" "str ''a_c'' \<noteq> str ''x_y''"
  "str ''a_z'' \<noteq> str ''a_b''" "str ''a_z'' \<noteq> str ''a_c''" "str ''a_z'' \<noteq> str ''x_y''"
  by (simp_all add: str_def)

section \<open>The steps of the main route handler\<close>

lemma firestore_hit_Some_iff:
  "firestore_hit doc = Some c \<longleftrightarrow>
     exists doc \<and> (\<exists>d. data doc = Some d \<and> html d = JString c)"
  by (auto simp: firestore_hit_def split: option.splits jsval.splits)

lemma firestore_hit_None_iff:
  "firestore_hit doc = None \<longleftrightarrow> \<not> record_is_hit doc"
  by (auto simp: firestore_hit_def record_is_hit_def split: option.splits jsval.splits)

lemma firestore_hit_no_document: "firestore_hit no_document = None"
  by (simp add: firestore_hit_def no_document_def)

lemma render_and_save_Inr:
  assumes "commonEngine_render e (url req) (baseUrl req) = Inr m"
  shows "fst (render_and_save e req key s tr) = Send m"
    and "map_of (memoryCache (fst (snd (render_and_save e req key s tr)))) key = Some m"
    and "memoryCache (fst (snd (render_and_save e req key s tr))) = AList.update key m (memoryCache s)"
    and "renders (snd (snd (render_and_save e req key s tr))) = renders tr + 1"
    and "\<not> set_rejects e key \<Longrightarrow> db (fst (snd (render_and_save e req key s tr))) =
          (db s)(key := \<lparr>exists = True,
             data = Some \<lparr>html = JString m, timestamp = serverTimestamp e,
                          doc_url = url req, createdAt = now e\<rparr>\<rparr>)"
    and "set_rejects e key \<Longrightarrow> db (fst (snd (render_and_save e req key s tr))) = db s"
  using assms
  by (simp_all add: render_and_save_def Let_def renders_def AList.update_conv')

lemma render_and_save_renders:
  "renders (snd (snd (render_and_save e req key s tr))) = renders tr + 1"
  by (simp add: render_and_save_def Let_def renders_def split: sum.splits)

lemma render_and_save_Send:
  "fst (render_and_save e req key s tr) = Send c \<Longrightarrow>
     map_of (memoryCache (fst (snd (render_and_save e req key s tr)))) key = Some c"
  by (auto simp add: render_and_save_def Let_def AList.update_conv' split: sum.splits if_splits)

lemma firestore_lookup_miss:
  "get_rejects e key \<or> firestore_hit (db s key) = None \<Longrightarrow>
   firestore_lookup e req key s =
     render_and_save e req key s
       [MemoryGet key, DocGet key (if get_rejects e key then Rejected else Fulfilled)]"
  by (auto simp: firestore_lookup_def)

lemma firestore_lookup_hit:
  "\<not> get_rejects e key \<Longrightarrow> firestore_hit (db s key) = Some h \<Longrightarrow>
   firestore_lookup e req key s =
     (Send h, s\<lparr>memoryCache := AList.update key h (memoryCache s)\<rparr>,
      [MemoryGet key, DocGet key Fulfilled, MemorySet key h])"
  by (simp add: firestore_lookup_def)

lemma get_handler_memory_miss:
  "map_of (memoryCache s) (safeUrl (url req)) = None \<or>
   map_of (memoryCache s) (safeUrl (url req)) = Some [] \<Longrightarrow>
   get_handler e req s = firestore_lookup e req (safeUrl (url req)) s"
  by (auto simp: get_handler_def)

lemma get_handler_memory_hit:
  "map_of (memoryCache s) (safeUrl (url req)) = Some c \<Longrightarrow> c \<noteq> [] \<Longrightarrow>
   get_handler e req s = (Send c, s, [MemoryGet (safeUrl (url req))])"
  by (simp add: get_handler_def)

lemma get_handler_Send_cached:
  "fst (get_handler e req s) = Send c \<Longrightarrow>
   map_of (memoryCache (fst (snd (get_handler e req s)))) (safeUrl (url req)) = Some c"
proof -
  assume a: "fst (get_handler e req s) = Send c"
  let ?k = "safeUrl (url req)"
  show ?thesis
  proof (cases "\<exists>v. map_of (memoryCache s) ?k = Some v \<and> v \<noteq> []")
    case True
    then obtain v where v: "map_of (memoryCache s) ?k = Some v" "v \<noteq> []" by blast
    from a show ?thesis by (simp add: get_handler_memory_hit[OF v] v)
  next
    case False
    then have m: "map_of (memoryCache s) ?k = None \<or> map_of (memoryCache s) ?k = Some []"
      by (cases "map_of (memoryCache s) ?k") auto
    note gh = get_handler_memory_miss[OF m]
    show ?thesis
    proof (cases "get_rejects e ?k \<or> firestore_hit (db s ?k) = None")
      case True
      from a show ?thesis
        unfolding gh firestore_lookup_miss[OF True] by (rule render_and_save_Send)
    next
      case False
      then obtain h where h: "\<not> get_rejects e ?k" "firestore_hit (db s ?k) = Some h" by auto
      from a show ?thesis
        unfolding gh firestore_lookup_hit[OF h] by (simp add: AList.update_conv')
    qed
  qed
qed

lemma get_handler_renders_on_miss:
  assumes "map_of (memoryCache s) (safeUrl (url req)) = None"
    and "firestore_hit (db s (safeUrl (url req))) = None"
  shows "renders (snd (snd (get_handler e req s))) = 1"
proof -
  let ?tr0 = "[MemoryGet (safeUrl (url req)),
         DocGet (safeUrl (url req))
           (if get_rejects e (safeUrl (url req)) then Rejected else Fulfilled)]"
  have gh: "get_handler e req s = render_and_save e req (safeUrl (url req)) s ?tr0"
    using assms by (simp add: get_handler_memory_miss firestore_lookup_miss)
  have "renders ?tr0 = 0"
    by (simp add: renders_def)
  then show ?thesis
    unfolding gh by (simp only: render_and_save_renders)
qed

section \<open>Full miss\<close>

text \<open>
  Claim C1. On a full miss, that is for a key that the memory cache does not hold and
  whose document does not exist, a single request whose rendering returns invokes the
  renderer exactly once and is answered with the rendered markup; afterwards the memory
  cache holds that markup under the key and, when the write of the document is not
  rejected, so does the durable tier.
\<close>

theorem full_miss_renders_once_and_populates:
  assumes "map_of (memoryCache s) (safeUrl (url req)) = None"
    and "\<not> exists (db s (safeUrl (url req)))"
    and "commonEngine_render e (url req) (baseUrl req) = Inr markup"
  shows "case get_handler e req s of (resp, s', tr) \<Rightarrow>
           resp = Send markup \<and> renders tr = 1 \<and>
           map_of (memoryCache s') (safeUrl (url req)) = Some markup \<and>
           (\<not> set_rejects e (safeUrl (url req)) \<longrightarrow>
              firestore_hit (db s' (safeUrl (url req))) = Some markup)"
proof -
  let ?k = "safeUrl (url req)"
  let ?tr0 = "[MemoryGet ?k, DocGet ?k (if get_rejects e ?k then Rejected else Fulfilled)]"
  have miss: "firestore_hit (db s ?k) = None"
    using assms(2) by (simp add: firestore_hit_def)
  have gh: "get_handler e req s = render_and_save e req ?k s ?tr0"
    using assms(1) miss by (simp add: get_handler_memory_miss firestore_lookup_miss)
  have tr0: "renders ?tr0 = 0"
    by (simp add: renders_def)
  show ?thesis
    unfolding gh
    using render_and_save_Inr[OF assms(3), of ?k s ?tr0] tr0
    by (simp add: case_prod_beta firestore_hit_def)
qed

theorem full_miss_witness:
  "map_of (memoryCache cold) (safeUrl (url foo_bar)) = None \<and>
   \<not> exists (db cold (safeUrl (url foo_bar))) \<and>
   commonEngine_render healthy (url foo_bar) (baseUrl foo_bar) = Inr page \<and>
   fst (get_handler healthy foo_bar cold) = Send page \<and>
   renders (snd (snd (get_handler healthy foo_bar cold))) = 1 \<and>
   map_of (memoryCache (fst (snd (get_handler healthy foo_bar cold)))) (str ''_foo_bar'') = Some page \<and>
   firestore_hit (db (fst (snd (get_handler healthy foo_bar cold))) (str ''_foo_bar'')) = Some page"
proof -
  have h1: "map_of (memoryCache cold) (safeUrl (url foo_bar)) = None"
    by (simp add: cold_def)
  have h2: "\<not> exists (db cold (safeUrl (url foo_bar)))"
    by (simp add: cold_def no_document_def)
  have h3: "commonEngine_render healthy (url foo_bar) (baseUrl foo_bar) = Inr page"
    by (rule render_healthy)
  have h4: "\<not> set_rejects healthy (safeUrl (url foo_bar))"
    by (simp add: healthy_def)
  show ?thesis
    using full_miss_renders_once_and_populates[OF h1 h2 h3] h1 h2 h3 h4
    by (simp add: case_prod_beta safeUrl_foo_bar)
qed

section \<open>Read-through\<close>

text \<open>
  Claim C2, as amended. Starting from an empty memory cache and a durable tier holding
  content \<open>c\<close> under key \<open>k\<close>, a request for any path that normalises to \<open>k\<close>,
  provided the read of the document is not rejected, is answered with \<open>c\<close>, stores
  \<open>c\<close> in the memory cache under \<open>k\<close>, never invokes the renderer and does not
  write the durable tier.
\<close>

theorem read_through_backfill:
  assumes "memoryCache s = []"
    and "exists (db s k)" and "data (db s k) = Some d" and "html d = JString c"
    and "safeUrl (url req) = k"
    and "\<not> get_rejects e k"
  shows "case get_handler e req s of (resp, s', tr) \<Rightarrow>
           resp = Send c \<and> memoryCache s' = [(k, c)] \<and> renders tr = 0 \<and>
           db s' = db s \<and> tr = [MemoryGet k, DocGet k Fulfilled, MemorySet k c]"
proof -
  have hit: "firestore_hit (db s k) = Some c"
    using assms(2-4) by (simp add: firestore_hit_Some_iff)
  have "get_handler e req s = firestore_lookup e req k s"
    using get_handler_memory_miss[of s req e] assms(1,5) by simp
  then show ?thesis
    using assms(1) by (simp add: firestore_lookup_hit[OF assms(6) hit] renders_def)
qed

theorem read_through_backfill_witness:
  "memoryCache (durable_only (JString stale_page)) = [] \<and>
   exists (db (durable_only (JString stale_page)) (str ''_foo_bar'')) \<and>
   safeUrl (url foo_bar) = str ''_foo_bar'' \<and>
   get_handler healthy foo_bar (durable_only (JString stale_page)) =
     (Send stale_page,
      (durable_only (JString stale_page))\<lparr>memoryCache := [(str ''_foo_bar'', stale_page)]\<rparr>,
      [MemoryGet (str ''_foo_bar''), DocGet (str ''_foo_bar'') Fulfilled,
       MemorySet (str ''_foo_bar'') stale_page])"
proof -
  let ?s = "durable_only (JString stale_page)"
  let ?k = "str ''_foo_bar''"
  have h1: "memoryCache ?s = []" by (simp add: durable_only_def)
  have h2: "exists (db ?s ?k)" by (simp add: durable_only_def stored_def)
  have h3: "data (db ?s ?k) = Some \<lparr>html = JString stale_page, timestamp = 0,
      doc_url = str ''/foo/bar'', createdAt = 0\<rparr>"
    by (simp add: durable_only_def stored_def)
  have h4: "html \<lparr>html = JString stale_page, timestamp = 0,
      doc_url = str ''/foo/bar'', createdAt = 0\<rparr> = JString stale_page" by simp
  have h6: "\<not> get_rejects healthy ?k" by (simp add: healthy_def)
  show ?thesis
    using read_through_backfill[OF h1 h2 h3 h4 safeUrl_foo_bar h6] h1 h2 safeUrl_foo_bar
    by (auto simp add: case_prod_beta prod_eq_iff)
qed

text \<open>
  Without the proviso the statement fails: when the read is rejected, the same state and
  request are answered with a fresh rendering, and the renderer runs once.
\<close>

theorem read_through_counterexample:
  "memoryCache (durable_only (JString stale_page)) = [] \<and>
   firestore_hit (db (durable_only (JString stale_page)) (str ''_foo_bar'')) = Some stale_page \<and>
   safeUrl (url foo_bar) = str ''_foo_bar'' \<and>
   fst (get_handler store_down foo_bar (durable_only (JString stale_page))) = Send page \<and>
   page \<noteq> stale_page \<and>
   renders (snd (snd (get_handler store_down foo_bar (durable_only (JString stale_page))))) = 1"
  by (simp add: safeUrl_foo_bar page_not_stale get_handler_def firestore_lookup_def
      render_and_save_def durable_only_def stored_def store_down_def firestore_hit_def Let_def
      renders_def)

section \<open>Store failures\<close>

text \<open>
  Claim C3. Whatever the store rejects, a request whose rendering returns is answered
  with content, never with an error; if a read or a write of the document was in fact
  rejected during the request, the answer is the freshly rendered markup and the memory
  cache holds it under the key; a request served from the memory cache touches the store
  not at all; and the only way to the 500 answer is an exception of the renderer.
\<close>

theorem store_failure_contained:
  "case get_handler e req s of (resp, s', tr) \<Rightarrow>
     (\<forall>markup. commonEngine_render e (url req) (baseUrl req) = Inr markup \<longrightarrow>
        (\<exists>content. resp = Send content) \<and>
        ((\<exists>ev \<in> set tr. is_rejected ev) \<longrightarrow>
           resp = Send markup \<and> map_of (memoryCache s') (safeUrl (url req)) = Some markup)) \<and>
     (\<forall>v. map_of (memoryCache s) (safeUrl (url req)) = Some v \<and> v \<noteq> [] \<longrightarrow>
        resp = Send v \<and> s' = s \<and> store_calls tr = 0) \<and>
     (resp = ServerError \<longrightarrow> (\<exists>x. commonEngine_render e (url req) (baseUrl req) = Inl x))"
proof -
  let ?k = "safeUrl (url req)"
  show ?thesis
  proof (cases "\<exists>v. map_of (memoryCache s) ?k = Some v \<and> v \<noteq> []")
    case True
    then obtain v where v: "map_of (memoryCache s) ?k = Some v" "v \<noteq> []" by blast
    show ?thesis by (simp add: get_handler_memory_hit[OF v] v store_calls_def)
  next
    case False
    then have m: "map_of (memoryCache s) ?k = None \<or> map_of (memoryCache s) ?k = Some []"
      by (cases "map_of (memoryCache s) ?k") auto
    note gh = get_handler_memory_miss[OF m]
    show ?thesis
    proof (cases "get_rejects e ?k \<or> firestore_hit (db s ?k) = None")
      case True
      show ?thesis
        unfolding gh firestore_lookup_miss[OF True] using False
        by (auto simp: render_and_save_def Let_def AList.update_conv' split: sum.splits)
    next
      case False
      then obtain h where h: "\<not> get_rejects e ?k" "firestore_hit (db s ?k) = Some h" by auto
      show ?thesis
        unfolding gh firestore_lookup_hit[OF h] using m by auto
    qed
  qed
qed

theorem store_failure_contained_witness:
  "commonEngine_render store_down (url foo_bar) (baseUrl foo_bar) = Inr page \<and>
   is_rejected (snd (snd (get_handler store_down foo_bar cold)) ! 1) \<and>
   is_rejected (snd (snd (get_handler store_down foo_bar cold)) ! 4) \<and>
   fst (get_handler store_down foo_bar cold) = Send page \<and>
   map_of (memoryCache (fst (snd (get_handler store_down foo_bar cold)))) (str ''_foo_bar'') =
     Some page"
proof -
  have tr: "snd (snd (get_handler store_down foo_bar cold)) =
      [MemoryGet (str ''_foo_bar''), DocGet (str ''_foo_bar'') Rejected,
       Render (url foo_bar), MemorySet (str ''_foo_bar'') page,
       DocSet (str ''_foo_bar'') Rejected]"
    by (simp add: get_handler_def firestore_lookup_def render_and_save_def Let_def
        safeUrl_foo_bar cold_def store_down_def)
  have rej: "\<exists>ev \<in> set (snd (snd (get_handler store_down foo_bar cold))). is_rejected ev"
    unfolding tr by simp
  show ?thesis
    using store_failure_contained[of store_down foo_bar cold] rej render_store_down[of "url foo_bar" "baseUrl foo_bar"]
    by (simp add: case_prod_beta safeUrl_foo_bar tr)
qed

section \<open>The fast path\<close>

text \<open>
  Claim C4, as amended. For every key under which the memory cache holds a non-empty
  string, the request is answered with that string at once: the state is unchanged, no
  store operation is issued and the renderer is not invoked. In particular, after any
  request answered with non-empty content, the same request again is served from the
  memory cache alone, whatever the store and the renderer would do.
\<close>

theorem volatile_fast_path_nonempty:
  "(map_of (memoryCache s) (safeUrl (url req)) = Some c \<and> c \<noteq> [] \<longrightarrow>
      get_handler e req s = (Send c, s, [MemoryGet (safeUrl (url req))]) \<and>
      store_calls (snd (snd (get_handler e req s))) = 0 \<and>
      renders (snd (snd (get_handler e req s))) = 0) \<and>
   (fst (get_handler e req s) = Send c \<and> c \<noteq> [] \<longrightarrow>
      get_handler e' req (fst (snd (get_handler e req s))) =
        (Send c, fst (snd (get_handler e req s)), [MemoryGet (safeUrl (url req))]))"
proof (intro conjI impI)
  assume a: "map_of (memoryCache s) (safeUrl (url req)) = Some c \<and> c \<noteq> []"
  then show gh: "get_handler e req s = (Send c, s, [MemoryGet (safeUrl (url req))])"
    by (simp add: get_handler_memory_hit)
  show "store_calls (snd (snd (get_handler e req s))) = 0"
    unfolding gh by (simp add: store_calls_def)
  show "renders (snd (snd (get_handler e req s))) = 0"
    unfolding gh by (simp add: renders_def)
next
  assume a: "fst (get_handler e req s) = Send c \<and> c \<noteq> []"
  then have "map_of (memoryCache (fst (snd (get_handler e req s)))) (safeUrl (url req)) = Some c"
    by (simp add: get_handler_Send_cached)
  with a show "get_handler e' req (fst (snd (get_handler e req s))) =
        (Send c, fst (snd (get_handler e req s)), [MemoryGet (safeUrl (url req))])"
    by (simp add: get_handler_memory_hit)
qed

theorem volatile_fast_path_witness:
  "fst (get_handler healthy foo_bar cold) = Send page \<and> page \<noteq> [] \<and>
   get_handler store_down foo_bar (fst (snd (get_handler healthy foo_bar cold))) =
     (Send page, fst (snd (get_handler healthy foo_bar cold)), [MemoryGet (str ''_foo_bar'')])"
proof -
  have first: "fst (get_handler healthy foo_bar cold) = Send page"
    by (simp add: get_handler_def firestore_lookup_def render_and_save_def Let_def
        safeUrl_foo_bar cold_def healthy_def no_document_def firestore_hit_def)
  show ?thesis
    using volatile_fast_path_nonempty[of cold foo_bar page healthy store_down] first page_nonempty
    by (simp add: safeUrl_foo_bar)
qed

text \<open>
  For a key cached with the empty string the statement fails: the request reads the
  document, renders and writes the document.
\<close>

theorem volatile_fast_path_counterexample:
  "map_of (memoryCache hollow) (safeUrl (url foo_bar)) = Some [] \<and>
   fst (get_handler healthy foo_bar hollow) = Send page \<and> page \<noteq> [] \<and>
   store_calls (snd (snd (get_handler healthy foo_bar hollow))) = 2 \<and>
   renders (snd (snd (get_handler healthy foo_bar hollow))) = 1"
  by (simp add: get_handler_def firestore_lookup_def render_and_save_def Let_def
      safeUrl_foo_bar hollow_def healthy_def no_document_def firestore_hit_def
      page_nonempty store_calls_def renders_def)

section \<open>The shape check\<close>

text \<open>
  Claim C8. The test of the handler accepts a record exactly when the existence flag is
  true, the payload is present and its content field is a string. When the memory cache
  misses and the read is not rejected, such a record is served without rendering; any
  other record leads to exactly one rendering, whose markup is the answer, and to the
  500 answer only when the renderer throws.
\<close>

theorem durable_hit_shape_check:
  "(firestore_hit doc \<noteq> None \<longleftrightarrow> record_is_hit doc) \<and>
   ((map_of (memoryCache s) (safeUrl (url req)) = None \<or>
     map_of (memoryCache s) (safeUrl (url req)) = Some []) \<and>
    \<not> get_rejects e (safeUrl (url req)) \<longrightarrow>
    (case get_handler e req s of (resp, s', tr) \<Rightarrow>
       (record_is_hit (db s (safeUrl (url req))) \<longrightarrow>
          renders tr = 0 \<and>
          (\<exists>payload content. data (db s (safeUrl (url req))) = Some payload \<and>
             html payload = JString content \<and> resp = Send content)) \<and>
       (\<not> record_is_hit (db s (safeUrl (url req))) \<longrightarrow>
          renders tr = 1 \<and>
          (\<forall>markup. commonEngine_render e (url req) (baseUrl req) = Inr markup \<longrightarrow>
             resp = Send markup) \<and>
          (resp = ServerError \<longrightarrow>
             (\<exists>x. commonEngine_render e (url req) (baseUrl req) = Inl x)))))"
proof (intro conjI impI)
  show "firestore_hit doc \<noteq> None \<longleftrightarrow> record_is_hit doc"
    by (simp add: firestore_hit_None_iff)
next
  let ?k = "safeUrl (url req)"
  assume a: "(map_of (memoryCache s) ?k = None \<or> map_of (memoryCache s) ?k = Some []) \<and>
    \<not> get_rejects e ?k"
  then have gh: "get_handler e req s = firestore_lookup e req ?k s"
    by (simp add: get_handler_memory_miss)
  show "case get_handler e req s of (resp, s', tr) \<Rightarrow>
       (record_is_hit (db s ?k) \<longrightarrow>
          renders tr = 0 \<and>
          (\<exists>payload content. data (db s ?k) = Some payload \<and>
             html payload = JString content \<and> resp = Send content)) \<and>
       (\<not> record_is_hit (db s ?k) \<longrightarrow>
          renders tr = 1 \<and>
          (\<forall>markup. commonEngine_render e (url req) (baseUrl req) = Inr markup \<longrightarrow>
             resp = Send markup) \<and>
          (resp = ServerError \<longrightarrow>
             (\<exists>x. commonEngine_render e (url req) (baseUrl req) = Inl x)))"
  proof (cases "firestore_hit (db s ?k)")
    case None
    then have nh: "\<not> record_is_hit (db s ?k)"
      by (simp add: firestore_hit_None_iff)
    from None have m: "get_rejects e ?k \<or> firestore_hit (db s ?k) = None" by simp
    show ?thesis
      unfolding gh firestore_lookup_miss[OF m] using nh
      by (auto simp: render_and_save_def Let_def renders_def split: sum.splits)
  next
    case (Some h)
    then have ih: "record_is_hit (db s ?k)"
      using firestore_hit_None_iff[of "db s ?k"] by simp
    from Some obtain payload where "data (db s ?k) = Some payload" "html payload = JString h"
      by (auto simp: firestore_hit_Some_iff)
    then show ?thesis
      unfolding gh using a ih by (simp add: firestore_lookup_hit[OF _ Some] renders_def)
  qed
qed

theorem durable_hit_shape_check_witness:
  "map_of (memoryCache (durable_only (JNumber 7))) (safeUrl (url foo_bar)) = None \<and>
   \<not> get_rejects healthy (safeUrl (url foo_bar)) \<and>
   \<not> record_is_hit (db (durable_only (JNumber 7)) (safeUrl (url foo_bar))) \<and>
   renders (snd (snd (get_handler healthy foo_bar (durable_only (JNumber 7))))) = 1 \<and>
   fst (get_handler healthy foo_bar (durable_only (JNumber 7))) = Send page \<and>
   map_of (memoryCache (durable_only (JString stale_page))) (safeUrl (url foo_bar)) = None \<and>
   record_is_hit (db (durable_only (JString stale_page)) (safeUrl (url foo_bar))) \<and>
   renders (snd (snd (get_handler healthy foo_bar (durable_only (JString stale_page))))) = 0 \<and>
   fst (get_handler healthy foo_bar (durable_only (JString stale_page))) = Send stale_page"
proof -
  have m: "map_of (memoryCache (durable_only v)) (safeUrl (url foo_bar)) = None" for v
    by (simp add: durable_only_def)
  have g: "\<not> get_rejects healthy (safeUrl (url foo_bar))"
    by (simp add: healthy_def)
  have bad: "\<not> record_is_hit (db (durable_only (JNumber 7)) (safeUrl (url foo_bar)))"
    by (simp add: safeUrl_foo_bar durable_only_def stored_def record_is_hit_def)
  have good: "record_is_hit (db (durable_only (JString stale_page)) (safeUrl (url foo_bar)))"
    by (simp add: safeUrl_foo_bar durable_only_def stored_def record_is_hit_def)
  have payload: "data (db (durable_only (JString stale_page)) (safeUrl (url foo_bar))) =
      Some \<lparr>html = JString stale_page, timestamp = 0, doc_url = str ''/foo/bar'', createdAt = 0\<rparr>"
    by (simp add: safeUrl_foo_bar durable_only_def stored_def)
  show ?thesis
    using durable_hit_shape_check[of "stored JNull" "durable_only (JNumber 7)" foo_bar healthy]
      durable_hit_shape_check[of "stored JNull" "durable_only (JString stale_page)" foo_bar healthy]
      m g bad good payload render_healthy[of "url foo_bar" "baseUrl foo_bar"]
    by (auto simp add: case_prod_beta)
qed

section \<open>The empty string in the memory cache\<close>

text \<open>
  Claim C10. When the memory cache holds the empty string under the key, the request is
  not served from the memory cache: the truthiness test fails, the document is read next
  and, unless that read yields a well-shaped record, the renderer runs. If the answer is
  again the empty string, the memory cache still holds the empty string, so the next
  request falls through in the same way.
\<close>

theorem empty_string_entry_falls_through:
  assumes "map_of (memoryCache s) (safeUrl (url req)) = Some []"
  shows "case get_handler e req s of (resp, s', tr) \<Rightarrow>
           tr \<noteq> [MemoryGet (safeUrl (url req))] \<and>
           take 2 tr = [MemoryGet (safeUrl (url req)),
                        DocGet (safeUrl (url req))
                          (if get_rejects e (safeUrl (url req)) then Rejected else Fulfilled)] \<and>
           1 \<le> store_calls tr \<and>
           (get_rejects e (safeUrl (url req)) \<or> \<not> record_is_hit (db s (safeUrl (url req)))
              \<longrightarrow> renders tr = 1) \<and>
           (resp = Send [] \<longrightarrow> map_of (memoryCache s') (safeUrl (url req)) = Some [])"
proof -
  let ?k = "safeUrl (url req)"
  have gh: "get_handler e req s = firestore_lookup e req ?k s"
    using assms by (simp add: get_handler_memory_miss)
  have cached: "fst (get_handler e req s) = Send [] \<longrightarrow>
      map_of (memoryCache (fst (snd (get_handler e req s)))) ?k = Some []"
    by (simp add: get_handler_Send_cached)
  have rest: "case firestore_lookup e req ?k s of (resp, s', tr) \<Rightarrow>
           tr \<noteq> [MemoryGet ?k] \<and>
           take 2 tr = [MemoryGet ?k, DocGet ?k (if get_rejects e ?k then Rejected else Fulfilled)] \<and>
           1 \<le> store_calls tr \<and>
           (get_rejects e ?k \<or> \<not> record_is_hit (db s ?k) \<longrightarrow> renders tr = 1)"
  proof (cases "get_rejects e ?k \<or> firestore_hit (db s ?k) = None")
    case True
    show ?thesis
      unfolding firestore_lookup_miss[OF True]
      by (auto simp: render_and_save_def Let_def renders_def store_calls_def split: sum.splits)
  next
    case False
    then obtain h where h: "\<not> get_rejects e ?k" "firestore_hit (db s ?k) = Some h" by auto
    then have "record_is_hit (db s ?k)"
      using firestore_hit_None_iff[of "db s ?k"] by simp
    then show ?thesis
      unfolding firestore_lookup_hit[OF h] using h by (simp add: store_calls_def)
  qed
  show ?thesis
    using rest cached unfolding gh by (simp add: case_prod_beta)
qed

theorem empty_string_entry_falls_through_witness:
  "map_of (memoryCache hollow) (safeUrl (url foo_bar)) = Some [] \<and>
   take 2 (snd (snd (get_handler healthy foo_bar hollow))) =
     [MemoryGet (str ''_foo_bar''), DocGet (str ''_foo_bar'') Fulfilled] \<and>
   renders (snd (snd (get_handler healthy foo_bar hollow))) = 1"
proof -
  have h: "map_of (memoryCache hollow) (safeUrl (url foo_bar)) = Some []"
    by (simp add: hollow_def safeUrl_foo_bar)
  have g: "\<not> get_rejects healthy (safeUrl (url foo_bar))"
    by (simp add: healthy_def)
  have nh: "\<not> record_is_hit (db hollow (safeUrl (url foo_bar)))"
    by (simp add: hollow_def no_document_def record_is_hit_def)
  show ?thesis
    using empty_string_entry_falls_through[OF h, of healthy] h g nh
    by (simp add: case_prod_beta safeUrl_foo_bar)
qed

section \<open>The steps of the invalidation handler\<close>

text \<open>
  \<open>js_includes\<close> is plain containment: the pattern occurs as a contiguous run of code
  units, with no character of it read as a wildcard.
\<close>

lemma js_includes_iff: "js_includes s pat \<longleftrightarrow> (\<exists>ps ss. s = ps @ pat @ ss)"
proof (induction s)
  case Nil
  then show ?case by auto
next
  case (Cons c cs)
  show ?case
  proof
    assume "js_includes (c # cs) pat"
    then consider "prefix pat (c # cs)" | "js_includes cs pat" by auto
    then show "\<exists>ps ss. c # cs = ps @ pat @ ss"
    proof cases
      case 1
      then obtain ss where "c # cs = pat @ ss" by (auto simp: prefix_def)
      then have "c # cs = [] @ pat @ ss" by simp
      then show ?thesis by blast
    next
      case 2
      with Cons.IH obtain ps ss where "cs = ps @ pat @ ss" by blast
      then have "c # cs = (c # ps) @ pat @ ss" by simp
      then show ?thesis by blast
    qed
  next
    assume "\<exists>ps ss. c # cs = ps @ pat @ ss"
    then obtain ps ss where eq: "c # cs = ps @ pat @ ss" by blast
    show "js_includes (c # cs) pat"
    proof (cases ps)
      case Nil
      with eq have "prefix pat (c # cs)" by (simp add: prefix_def)
      then show ?thesis by simp
    next
      case (Cons a as)
      with eq have "cs = as @ pat @ ss" by simp
      with Cons.IH have "js_includes cs pat" by blast
      then show ?thesis by simp
    qed
  qed
qed

lemma proto_key_nonempty: "proto_key \<noteq> []"
  by (simp add: proto_key_def str_def)

lemma safeUrl_Nil_iff: "safeUrl p = [] \<longleftrightarrow> p = []"
  by (cases p) simp_all

lemma map_of_memory_del:
  "map_of (memory_del key entries) k =
     (if k = key \<and> key \<noteq> proto_key then None else map_of entries k)"
  by (simp add: memory_del_def AList.delete_conv')

lemma memory_del_absent:
  "map_of entries key = None \<Longrightarrow> memory_del key entries = entries"
  by (simp add: memory_del_def map_of_eq_None_iff)

lemma memory_del_filter:
  "memory_del key entries =
     filter (\<lambda>kv. \<not> (fst kv = key \<and> key \<noteq> proto_key)) entries"
  by (auto simp: memory_del_def AList.delete_eq intro!: filter_cong)

lemma set_memory_keys:
  "set (memory_keys entries) = {k \<in> fst ` set entries. k \<noteq> proto_key}"
  by (auto simp: memory_keys_def)

lemma delete_entry_memory:
  "memoryCache (fst (delete_entry e key st)) = memory_del key (memoryCache (fst st))"
  by (simp add: delete_entry_def)

lemma delete_entry_db: "db (fst (delete_entry e key st)) = db (fst st)"
  by (simp add: delete_entry_def)

lemma delete_entry_trace:
  "snd (delete_entry e key st) =
     snd st @ [MemoryDel key, DocDelete key (if delete_rejects e key then Rejected else Fulfilled)]"
  by (simp add: delete_entry_def)

lemma settle_memory: "memoryCache (settle tr s) = memoryCache s"
  by (induction tr s rule: settle.induct) simp_all

lemma settle_db:
  "db (settle tr s) k = (if DocDelete k Fulfilled \<in> set tr then no_document else db s k)"
  by (induction tr s rule: settle.induct) auto

lemma invalidate_keys_memory:
  "memoryCache (fst (invalidate_keys e pat ks st)) =
     filter (\<lambda>kv. \<not> (fst kv \<in> set ks \<and> fst kv \<noteq> proto_key \<and> js_includes (fst kv) pat))
       (memoryCache (fst st))"
proof (induction ks arbitrary: st)
  case Nil
  then show ?case by simp
next
  case (Cons key ks)
  show ?case
  proof (cases "js_includes key pat")
    case True
    have "memoryCache (fst (invalidate_keys e pat (key # ks) st)) =
        filter (\<lambda>kv. \<not> (fst kv \<in> set ks \<and> fst kv \<noteq> proto_key \<and> js_includes (fst kv) pat))
          (filter (\<lambda>kv. \<not> (fst kv = key \<and> key \<noteq> proto_key)) (memoryCache (fst st)))"
      using True Cons.IH[of "delete_entry e key st"]
      by (simp add: delete_entry_memory memory_del_filter)
    also have "\<dots> =
        filter (\<lambda>kv. \<not> (fst kv \<in> set (key # ks) \<and> fst kv \<noteq> proto_key \<and> js_includes (fst kv) pat))
          (memoryCache (fst st))"
      using True by (auto intro!: filter_cong)
    finally show ?thesis .
  next
    case False
    have "filter (\<lambda>kv. \<not> (fst kv \<in> set ks \<and> fst kv \<noteq> proto_key \<and> js_includes (fst kv) pat))
          (memoryCache (fst st)) =
        filter (\<lambda>kv. \<not> (fst kv \<in> set (key # ks) \<and> fst kv \<noteq> proto_key \<and> js_includes (fst kv) pat))
          (memoryCache (fst st))"
      using False by (auto intro!: filter_cong)
    then show ?thesis
      using False Cons.IH[of st] by simp
  qed
qed

lemma invalidate_keys_db: "db (fst (invalidate_keys e pat ks st)) = db (fst st)"
  by (induction ks arbitrary: st) (simp_all add: delete_entry_db)

lemma invalidate_keys_trace:
  "DocDelete k Fulfilled \<in> set (snd (invalidate_keys e pat ks st)) \<longleftrightarrow>
     DocDelete k Fulfilled \<in> set (snd st) \<or>
     (k \<in> set ks \<and> js_includes k pat \<and> \<not> delete_rejects e k)"
proof (induction ks arbitrary: st)
  case Nil
  then show ?case by simp
next
  case (Cons key ks)
  show ?case
  proof (cases "js_includes key pat")
    case True
    then show ?thesis
      using Cons.IH[of "delete_entry e key st"] by (auto simp: delete_entry_trace)
  next
    case False
    then show ?thesis
      using Cons.IH[of st] by auto
  qed
qed

lemma map_of_filter_key:
  "map_of (filter (\<lambda>kv. Q (fst kv)) xs) k = (if Q k then map_of xs k else None)"
  by (induction xs) auto

lemma invalidatePattern_unfold:
  "invalidatePattern e pat s =
     (if pat \<noteq> []
      then settled (Success,
             invalidate_keys e pat (memory_keys (memoryCache s)) (s, [MemoryKeys]))
      else (Success, s, []))"
  by (simp add: invalidatePattern_def invalidate_handler_def url_branch_def pattern_branch_def
      settled_def)

lemma invalidatePattern_memory:
  "memoryCache (fst (snd (invalidatePattern e pat s))) =
     (if pat \<noteq> []
      then filter (\<lambda>kv. \<not> (fst kv \<noteq> proto_key \<and> js_includes (fst kv) pat)) (memoryCache s)
      else memoryCache s)"
proof (cases "pat = []")
  case True
  then show ?thesis by (simp add: invalidatePattern_unfold)
next
  case False
  have "filter (\<lambda>kv. \<not> (fst kv \<in> set (memory_keys (memoryCache s)) \<and> fst kv \<noteq> proto_key \<and>
            js_includes (fst kv) pat)) (memoryCache s) =
        filter (\<lambda>kv. \<not> (fst kv \<noteq> proto_key \<and> js_includes (fst kv) pat)) (memoryCache s)"
    by (auto simp: set_memory_keys intro!: filter_cong)
  then show ?thesis
    using False
    by (simp add: invalidatePattern_unfold settled_def settle_memory invalidate_keys_memory)
qed

lemma invalidatePattern_db:
  "db (fst (snd (invalidatePattern e pat s))) k =
     (if pat \<noteq> [] \<and> k \<in> fst ` set (memoryCache s) \<and> k \<noteq> proto_key \<and> js_includes k pat \<and>
         \<not> delete_rejects e k
      then no_document else db s k)"
  by (auto simp: invalidatePattern_unfold settled_def settle_db invalidate_keys_db
      invalidate_keys_trace set_memory_keys)

lemma invalidatePattern_no_match:
  assumes "\<forall>k \<in> fst ` set (memoryCache s). \<not> js_includes k pat"
  shows "fst (snd (invalidatePattern e pat s)) = s"
proof -
  have "filter (\<lambda>kv. \<not> (fst kv \<noteq> proto_key \<and> js_includes (fst kv) pat)) (memoryCache s) =
      memoryCache s"
    using assms by (simp add: filter_id_conv)
  then have m: "memoryCache (fst (snd (invalidatePattern e pat s))) = memoryCache s"
    by (simp add: invalidatePattern_memory)
  have d: "db (fst (snd (invalidatePattern e pat s))) = db s"
  proof
    fix k
    show "db (fst (snd (invalidatePattern e pat s))) k = db s k"
      using assms by (auto simp: invalidatePattern_db)
  qed
  from m d show ?thesis by simp
qed

lemma invalidate_handler_url:
  "invalidate_handler e (Some p) None s =
     (if p \<noteq> []
      then (Success, s\<lparr>memoryCache := memory_del (safeUrl p) (memoryCache s)\<rparr>,
            [MemoryDel (safeUrl p),
             DocDelete (safeUrl p) (if delete_rejects e (safeUrl p) then Rejected else Fulfilled)])
      else (Success, s, []))"
  by (simp add: invalidate_handler_def url_branch_def pattern_branch_def delete_entry_def)

lemma invalidateKey_memory:
  "memoryCache (fst (snd (invalidateKey e p s))) =
     (if p \<noteq> [] then memory_del (safeUrl p) (memoryCache s) else memoryCache s)"
  by (simp add: invalidateKey_def invalidate_handler_url settled_def settle_memory)

lemma invalidateKey_db:
  "db (fst (snd (invalidateKey e p s))) =
     (if p \<noteq> [] \<and> \<not> delete_rejects e (safeUrl p) then (db s)(safeUrl p := no_document)
      else db s)"
  by (simp add: invalidateKey_def invalidate_handler_url settled_def)

lemma invalidateKey_response: "fst (invalidateKey e p s) = Success"
  by (simp add: invalidateKey_def invalidate_handler_url settled_def)

text \<open>
  The states the handlers build have no entry under the empty key: a request with a
  non-empty URL, an invalidation and a settlement all keep it so, from the empty state on.
\<close>

lemma no_empty_key_cold: "no_empty_key cold"
  by (simp add: no_empty_key_def cold_def)

lemma no_empty_key_get_handler:
  assumes "no_empty_key s" and "url req \<noteq> []"
  shows "no_empty_key (fst (snd (get_handler e req s)))"
proof -
  have k: "safeUrl (url req) \<noteq> []"
    using assms(2) by (simp add: safeUrl_Nil_iff)
  then have k': "[] \<noteq> safeUrl (url req)"
    by simp
  show ?thesis
    using assms(1) k k'
    by (auto simp: no_empty_key_def get_handler_def firestore_lookup_def render_and_save_def
        Let_def AList.update_conv' split: option.splits sum.splits)
qed

lemma no_empty_key_settle: "no_empty_key s \<Longrightarrow> no_empty_key (settle tr s)"
  by (simp add: no_empty_key_def settle_memory settle_db)

lemma map_of_filter_None: "map_of entries k = None \<Longrightarrow> map_of (filter P entries) k = None"
  by (induction entries) (auto split: if_splits)

lemma no_empty_key_invalidate_keys:
  "no_empty_key (fst st) \<Longrightarrow> no_empty_key (fst (invalidate_keys e pat ks st))"
  by (simp add: no_empty_key_def invalidate_keys_memory invalidate_keys_db map_of_filter_None)

lemma no_empty_key_invalidate_handler:
  assumes "no_empty_key s"
  shows "no_empty_key (fst (snd (invalidate_handler e u pat s)))"
proof -
  have a: "no_empty_key (fst (url_branch e u (s, [])))"
    using assms
    by (auto simp: url_branch_def no_empty_key_def delete_entry_def map_of_memory_del
        split: option.splits)
  have "no_empty_key (fst (pattern_branch e pat st))" if "no_empty_key (fst st)" for st
    using that by (auto simp: pattern_branch_def no_empty_key_invalidate_keys split: option.splits)
  with a show ?thesis
    by (simp add: invalidate_handler_def Let_def)
qed

section \<open>Invalidation of one key\<close>

lemma firestore_hit_stored: "firestore_hit (stored (JString c)) = Some c"
  by (simp add: firestore_hit_def stored_def)

lemma no_empty_key_both_tiers: "no_empty_key both_tiers"
  by (simp add: no_empty_key_def both_tiers_def str_def)

text \<open>
  Claim C5, as amended. Let \<open>p\<close> be a path whose key is not \<open>__proto__\<close>, with the
  delete of its document not rejected (an empty \<open>p\<close> issues no delete; then the state is
  one the handlers build, with nothing under the empty key). Once the delete has settled,
  the memory cache has no entry under the key of \<open>p\<close>, the document is absent, and a
  request for \<open>p\<close> served from then on (its URL \<open>p\<close> is then not empty) invokes the
  renderer, whatever the store does then. Invalidating a key that neither tier holds
  answers success and leaves the state as it was, for every path and whatever the store
  does.
\<close>

theorem key_invalidation_when_delete_succeeds:
  "(safeUrl p \<noteq> proto_key \<and>
    (if p = [] then no_empty_key s else \<not> delete_rejects e (safeUrl p)) \<longrightarrow>
      (case invalidateKey e p s of (r, s', tr) \<Rightarrow>
         r = Success \<and>
         map_of (memoryCache s') (safeUrl p) = None \<and>
         db s' (safeUrl p) = no_document \<and>
         firestore_hit (db s' (safeUrl p)) = None \<and>
         (p \<noteq> [] \<longrightarrow>
            renders (snd (snd (get_handler e' \<lparr>url = p, baseUrl = b\<rparr> s'))) = 1))) \<and>
   (map_of (memoryCache s) (safeUrl p) = None \<and> db s (safeUrl p) = no_document \<longrightarrow>
      fst (invalidateKey e p s) = Success \<and> fst (snd (invalidateKey e p s)) = s)"
proof (intro conjI impI)
  assume a: "safeUrl p \<noteq> proto_key \<and>
    (if p = [] then no_empty_key s else \<not> delete_rejects e (safeUrl p))"
  let ?s' = "fst (snd (invalidateKey e p s))"
  have m: "map_of (memoryCache ?s') (safeUrl p) = None"
  proof (cases "p = []")
    case True
    with a show ?thesis by (simp add: invalidateKey_memory no_empty_key_def)
  next
    case False
    with a show ?thesis by (simp add: invalidateKey_memory map_of_memory_del)
  qed
  have d: "db ?s' (safeUrl p) = no_document"
  proof (cases "p = []")
    case True
    with a show ?thesis by (simp add: invalidateKey_db no_empty_key_def)
  next
    case False
    with a show ?thesis by (simp add: invalidateKey_db)
  qed
  have h: "firestore_hit (db ?s' (safeUrl p)) = None"
    unfolding d by (rule firestore_hit_no_document)
  have r: "renders (snd (snd (get_handler e' \<lparr>url = p, baseUrl = b\<rparr> ?s'))) = 1"
    using m h by (simp add: get_handler_renders_on_miss)
  show "case invalidateKey e p s of (r, s', tr) \<Rightarrow>
         r = Success \<and>
         map_of (memoryCache s') (safeUrl p) = None \<and>
         db s' (safeUrl p) = no_document \<and>
         firestore_hit (db s' (safeUrl p)) = None \<and>
         (p \<noteq> [] \<longrightarrow>
            renders (snd (snd (get_handler e' \<lparr>url = p, baseUrl = b\<rparr> s'))) = 1)"
    using m d h r by (simp add: case_prod_beta invalidateKey_response)
next
  assume a: "map_of (memoryCache s) (safeUrl p) = None \<and> db s (safeUrl p) = no_document"
  show "fst (invalidateKey e p s) = Success"
    by (rule invalidateKey_response)
  from a have mem: "memoryCache (fst (snd (invalidateKey e p s))) = memoryCache s"
    by (simp add: invalidateKey_memory memory_del_absent)
  from a have "(db s)(safeUrl p := no_document) = db s"
    by (simp add: fun_upd_idem)
  then have "db (fst (snd (invalidateKey e p s))) = db s"
    by (simp add: invalidateKey_db)
  with mem show "fst (snd (invalidateKey e p s)) = s"
    by simp
qed

theorem key_invalidation_witness:
  "safeUrl (str ''/foo/bar'') \<noteq> proto_key \<and>
   str ''/foo/bar'' \<noteq> [] \<and>
   \<not> delete_rejects healthy (safeUrl (str ''/foo/bar'')) \<and>
   map_of (memoryCache both_tiers) (str ''_foo_bar'') = Some stale_page \<and>
   fst (invalidateKey healthy (str ''/foo/bar'') both_tiers) = Success \<and>
   map_of (memoryCache (fst (snd (invalidateKey healthy (str ''/foo/bar'') both_tiers))))
     (str ''_foo_bar'') = None \<and>
   db (fst (snd (invalidateKey healthy (str ''/foo/bar'') both_tiers))) (str ''_foo_bar'') =
     no_document \<and>
   renders (snd (snd (get_handler healthy foo_bar
     (fst (snd (invalidateKey healthy (str ''/foo/bar'') both_tiers)))))) = 1 \<and>
   no_empty_key both_tiers \<and>
   map_of (memoryCache (fst (snd (invalidateKey store_down [] both_tiers)))) [] = None \<and>
   db (fst (snd (invalidateKey store_down [] both_tiers))) [] = no_document \<and>
   map_of (memoryCache cold) (safeUrl (str ''/foo/bar'')) = None \<and>
   db cold (safeUrl (str ''/foo/bar'')) = no_document \<and>
   fst (snd (invalidateKey healthy (str ''/foo/bar'') cold)) = cold"
proof -
  have h0: "safeUrl (str ''/foo/bar'') \<noteq> proto_key"
    by (simp add: safeUrl_foo_bar_str proto_key_def str_def)
  have h1: "str ''/foo/bar'' \<noteq> []" by (simp add: str_def)
  have h2: "\<not> delete_rejects healthy (safeUrl (str ''/foo/bar''))" by (simp add: healthy_def)
  have h3: "map_of (memoryCache both_tiers) (str ''_foo_bar'') = Some stale_page"
    by (simp add: both_tiers_def)
  have h4: "map_of (memoryCache cold) (safeUrl (str ''/foo/bar'')) = None"
    by (simp add: cold_def)
  have h5: "db cold (safeUrl (str ''/foo/bar'')) = no_document"
    by (simp add: cold_def)
  have h6: "safeUrl [] \<noteq> proto_key"
    by (simp add: proto_key_def str_def)
  have rq: "\<lparr>url = str ''/foo/bar'', baseUrl = []\<rparr> = foo_bar"
    by (simp add: foo_bar_def)
  show ?thesis
    using key_invalidation_when_delete_succeeds[where p = "str ''/foo/bar''" and e = healthy
        and s = both_tiers and e' = healthy and b = "[]"]
      key_invalidation_when_delete_succeeds[where p = "[]" and e = store_down
        and s = both_tiers and e' = healthy and b = "[]"]
      key_invalidation_when_delete_succeeds[where p = "str ''/foo/bar''" and e = healthy
        and s = cold and e' = healthy and b = "[]"]
      h0 h1 h2 h3 h4 h5 h6 no_empty_key_both_tiers
    by (simp add: case_prod_beta safeUrl_foo_bar_str rq)
qed

text \<open>
  Without the proviso on the delete the statement fails: when the delete is rejected the
  document stays, the durable lookup still hits, and the next request is served from the
  document without rendering.
\<close>

theorem key_invalidation_counterexample:
  "firestore_hit (db (fst (snd (invalidateKey delete_down (str ''/foo/bar'') both_tiers)))
      (safeUrl (str ''/foo/bar''))) = Some stale_page \<and>
   renders (snd (snd (get_handler healthy foo_bar
      (fst (snd (invalidateKey delete_down (str ''/foo/bar'') both_tiers)))))) = 0"
proof -
  have ne: "str ''/foo/bar'' \<noteq> []" by (simp add: str_def)
  have np: "str ''_foo_bar'' \<noteq> proto_key" by (simp add: proto_key_def str_def)
  have s1: "fst (snd (invalidateKey delete_down (str ''/foo/bar'') both_tiers)) =
      \<lparr>memoryCache = [], db = (\<lambda>k. no_document)(str ''_foo_bar'' := stored (JString stale_page))\<rparr>"
    using ne np
    by (simp add: invalidateKey_def invalidate_handler_url settled_def memory_del_def
        safeUrl_foo_bar_str both_tiers_def delete_down_def)
  have a: "firestore_hit (db (fst (snd (invalidateKey delete_down (str ''/foo/bar'') both_tiers)))
      (safeUrl (str ''/foo/bar''))) = Some stale_page"
    unfolding s1 by (simp add: safeUrl_foo_bar_str firestore_hit_stored)
  have b: "renders (snd (snd (get_handler healthy foo_bar
      (fst (snd (invalidateKey delete_down (str ''/foo/bar'') both_tiers)))))) = 0"
    unfolding s1
    by (simp add: get_handler_def firestore_lookup_def safeUrl_foo_bar firestore_hit_stored
        healthy_def renders_def Let_def)
  from a b show ?thesis by blast
qed

text \<open>
  Two behaviours of the handler lie outside the amended statement. A request served
  between the answer of the handler and the settlement of its delete still finds the
  document: it is answered from it without rendering and puts the page back into the
  memory cache, where it stays when the delete settles. And an entry under
  \<open>__proto__\<close>, the key of \<open>/_proto__\<close>, survives its invalidation in the memory cache.
\<close>

lemma request_before_settlement:
  "fst (get_handler healthy foo_bar
         (fst (snd (invalidate_handler healthy (Some (str ''/foo/bar'')) None both_tiers)))) =
     Send stale_page \<and>
   renders (snd (snd (get_handler healthy foo_bar
         (fst (snd (invalidate_handler healthy (Some (str ''/foo/bar'')) None both_tiers)))))) = 0 \<and>
   map_of (memoryCache (settle
         (snd (snd (invalidate_handler healthy (Some (str ''/foo/bar'')) None both_tiers)))
         (fst (snd (get_handler healthy foo_bar
           (fst (snd (invalidate_handler healthy (Some (str ''/foo/bar'')) None both_tiers))))))))
     (str ''_foo_bar'') = Some stale_page"
proof -
  have ne: "str ''/foo/bar'' \<noteq> []" by (simp add: str_def)
  have np: "str ''_foo_bar'' \<noteq> proto_key" by (simp add: proto_key_def str_def)
  have answered: "fst (snd (invalidate_handler healthy (Some (str ''/foo/bar'')) None both_tiers)) =
      \<lparr>memoryCache = [], db = (\<lambda>k. no_document)(str ''_foo_bar'' := stored (JString stale_page))\<rparr>"
    using ne np
    by (simp add: invalidate_handler_url memory_del_def safeUrl_foo_bar_str both_tiers_def)
  have served: "get_handler healthy foo_bar
      \<lparr>memoryCache = [], db = (\<lambda>k. no_document)(str ''_foo_bar'' := stored (JString stale_page))\<rparr> =
      (Send stale_page, both_tiers,
       [MemoryGet (str ''_foo_bar''), DocGet (str ''_foo_bar'') Fulfilled,
        MemorySet (str ''_foo_bar'') stale_page])"
    by (simp add: get_handler_def firestore_lookup_def safeUrl_foo_bar firestore_hit_stored
        healthy_def Let_def both_tiers_def)
  show ?thesis
    unfolding answered served
    by (simp add: renders_def settle_memory both_tiers_def)
qed

lemma proto_entry_survives:
  "safeUrl (str ''/_proto__'') = proto_key \<and>
   map_of (memoryCache proto_cached) proto_key = Some page \<and>
   map_of (memoryCache (fst (snd (invalidateKey healthy (str ''/_proto__'') proto_cached))))
     proto_key = Some page"
proof -
  have k: "safeUrl (str ''/_proto__'') = proto_key"
    by (simp add: proto_key_def str_def matches_class_def slash_def underscore_def
        is_whitespace_def)
  have m: "map_of (memoryCache proto_cached) proto_key = Some page"
    by (simp add: proto_cached_def proto_key_def)
  have "memoryCache (fst (snd (invalidateKey healthy (str ''/_proto__'') proto_cached))) =
      memoryCache proto_cached"
    by (simp add: invalidateKey_memory k memory_del_def)
  with k m show ?thesis by simp
qed

section \<open>Invalidation by pattern\<close>

text \<open>
  Claim C6, as amended. Given the memory keys \<open>a_b\<close>, \<open>a_c\<close> and \<open>x_y\<close>, after
  \<open>invalidatePattern\<close> with \<open>a_\<close> the memory cache holds \<open>x_y\<close> alone, with its
  content; the document \<open>x_y\<close> is untouched; and when the deletes of \<open>a_b\<close> and
  \<open>a_c\<close> are not rejected, the durable tier differs from before in exactly these two
  documents, which are absent. The tiers are taken once the issued deletes have settled.
  The match is containment: the patterns \<open>a.\<close> and \<open>a*\<close>, which would match as a
  regular expression or a glob, remove nothing.
\<close>

theorem pattern_invalidation_scenario:
  assumes "fst ` set (memoryCache s) = {str ''a_b'', str ''a_c'', str ''x_y''}"
  shows "case invalidatePattern e (str ''a_'') s of (r, s', tr) \<Rightarrow>
           r = Success \<and>
           fst ` set (memoryCache s') = {str ''x_y''} \<and>
           map_of (memoryCache s') (str ''x_y'') = map_of (memoryCache s) (str ''x_y'') \<and>
           db s' (str ''x_y'') = db s (str ''x_y'') \<and>
           (\<not> delete_rejects e (str ''a_b'') \<and> \<not> delete_rejects e (str ''a_c'') \<longrightarrow>
              db s' = (db s)(str ''a_b'' := no_document, str ''a_c'' := no_document)) \<and>
           fst (snd (invalidatePattern e (str ''a.'') s)) = s \<and>
           fst (snd (invalidatePattern e (str ''a*'') s)) = s"
proof -
  let ?pat = "str ''a_''"
  let ?s' = "fst (snd (invalidatePattern e ?pat s))"
  have inc: "js_includes (str ''a_b'') ?pat" "js_includes (str ''a_c'') ?pat"
    "\<not> js_includes (str ''x_y'') ?pat"
    by (simp_all add: str_def)
  have ne: "?pat \<noteq> []" by (simp add: str_def)
  have np: "str ''a_b'' \<noteq> proto_key" "str ''a_c'' \<noteq> proto_key" "str ''x_y'' \<noteq> proto_key"
    by (simp_all add: proto_key_def str_def)
  have mem: "memoryCache ?s' =
      filter (\<lambda>kv. \<not> (fst kv \<noteq> proto_key \<and> js_includes (fst kv) ?pat)) (memoryCache s)"
    using ne by (simp add: invalidatePattern_memory)
  have keys: "fst ` set (memoryCache ?s') = {str ''x_y''}"
  proof -
    have "fst ` set (memoryCache ?s') =
        {k \<in> fst ` set (memoryCache s). \<not> (k \<noteq> proto_key \<and> js_includes k ?pat)}"
      unfolding mem by auto
    also have "\<dots> = {str ''x_y''}"
      unfolding assms using inc np by auto
    finally show ?thesis .
  qed
  have xy: "map_of (memoryCache ?s') (str ''x_y'') = map_of (memoryCache s) (str ''x_y'')"
    unfolding mem using inc(3)
    by (simp add: map_of_filter_key[where
          Q = "\<lambda>k. k = proto_key \<or> \<not> js_includes k (str ''a_'')"])
  have dxy: "db ?s' (str ''x_y'') = db s (str ''x_y'')"
    using inc(3) by (simp add: invalidatePattern_db)
  have dall: "db ?s' = (db s)(str ''a_b'' := no_document, str ''a_c'' := no_document)"
    if ok: "\<not> delete_rejects e (str ''a_b'') \<and> \<not> delete_rejects e (str ''a_c'')"
  proof
    fix k
    show "db ?s' k = ((db s)(str ''a_b'' := no_document, str ''a_c'' := no_document)) k"
      using ok inc ne np by (auto simp: invalidatePattern_db assms)
  qed
  have r: "fst (invalidatePattern e ?pat s) = Success"
    by (simp add: invalidatePattern_unfold settled_def)
  have dot: "fst (snd (invalidatePattern e (str ''a.'') s)) = s"
    by (rule invalidatePattern_no_match) (simp add: assms, simp add: str_def)
  have star: "fst (snd (invalidatePattern e (str ''a*'') s)) = s"
    by (rule invalidatePattern_no_match) (simp add: assms, simp add: str_def)
  show ?thesis
    using r keys xy dxy dall dot star by (simp add: case_prod_beta)
qed

theorem pattern_invalidation_scenario_witness:
  "fst ` set (memoryCache pattern_state) = {str ''a_b'', str ''a_c'', str ''x_y''} \<and>
   fst (invalidatePattern healthy (str ''a_'') pattern_state) = Success \<and>
   fst ` set (memoryCache (fst (snd (invalidatePattern healthy (str ''a_'') pattern_state)))) =
     {str ''x_y''} \<and>
   map_of (memoryCache (fst (snd (invalidatePattern healthy (str ''a_'') pattern_state))))
     (str ''x_y'') = Some page \<and>
   db (fst (snd (invalidatePattern healthy (str ''a_'') pattern_state))) (str ''x_y'') =
     stored (JString page) \<and>
   db (fst (snd (invalidatePattern healthy (str ''a_'') pattern_state))) (str ''a_b'') =
     no_document \<and>
   db (fst (snd (invalidatePattern healthy (str ''a_'') pattern_state))) (str ''a_c'') =
     no_document"
proof -
  have h: "fst ` set (memoryCache pattern_state) = {str ''a_b'', str ''a_c'', str ''x_y''}"
    by (simp add: pattern_state_def)
  have ok: "\<not> delete_rejects healthy (str ''a_b'')" "\<not> delete_rejects healthy (str ''a_c'')"
    by (simp_all add: healthy_def)
  have m: "map_of (memoryCache pattern_state) (str ''x_y'') = Some page"
    using abx_distinct by (simp add: pattern_state_def)
  have d: "db pattern_state (str ''x_y'') = stored (JString page)"
    using abx_distinct by (simp add: pattern_state_def)
  show ?thesis
    using pattern_invalidation_scenario[OF h, of healthy] h ok m d abx_distinct
    by (simp add: case_prod_beta)
qed

text \<open>
  Without the proviso on the deletes the statement fails: when they are rejected, the
  document \<open>a_b\<close> is still a hit afterwards.
\<close>

theorem pattern_invalidation_counterexample:
  "fst ` set (memoryCache pattern_state) = {str ''a_b'', str ''a_c'', str ''x_y''} \<and>
   firestore_hit (db pattern_state (str ''a_b'')) = Some page \<and>
   firestore_hit (db (fst (snd (invalidatePattern delete_down (str ''a_'') pattern_state)))
     (str ''a_b'')) = Some page"
proof -
  have "db (fst (snd (invalidatePattern delete_down (str ''a_'') pattern_state))) (str ''a_b'') =
      db pattern_state (str ''a_b'')"
    by (simp add: invalidatePattern_db delete_down_def)
  moreover have "firestore_hit (db pattern_state (str ''a_b'')) = Some page"
    using abx_distinct by (simp add: pattern_state_def firestore_hit_def stored_def)
  moreover have "fst ` set (memoryCache pattern_state) = {str ''a_b'', str ''a_c'', str ''x_y''}"
    by (simp add: pattern_state_def)
  ultimately show ?thesis by simp
qed

text \<open>
  Claim C7. A document whose key is not among the keys of the memory cache when
  \<open>invalidatePattern\<close> is called is left unchanged, for every pattern, hence also when
  the key contains the pattern.
\<close>

theorem pattern_invalidation_blind_to_durable_only:
  "k \<notin> fst ` set (memoryCache s) \<Longrightarrow> db (fst (snd (invalidatePattern e pat s))) k = db s k"
  by (simp add: invalidatePattern_db)

theorem pattern_invalidation_blind_witness:
  "str ''a_z'' \<notin> fst ` set (memoryCache pattern_state) \<and>
   js_includes (str ''a_z'') (str ''a_'') \<and>
   db pattern_state (str ''a_z'') = stored (JString page) \<and>
   db (fst (snd (invalidatePattern healthy (str ''a_'') pattern_state))) (str ''a_z'') =
     stored (JString page)"
proof -
  have h: "str ''a_z'' \<notin> fst ` set (memoryCache pattern_state)"
    using abx_distinct by (simp add: pattern_state_def)
  have i: "js_includes (str ''a_z'') (str ''a_'')"
    by (simp add: str_def)
  have d: "db pattern_state (str ''a_z'') = stored (JString page)"
    by (simp add: pattern_state_def)
  show ?thesis
    using pattern_invalidation_blind_to_durable_only[OF h, of healthy "str ''a_''"] h i d
    by simp
qed

end
